theory Spec2Isabelle
  imports Complex_Main
begin

section \<open>Exceptions\<close>

text \<open>
  The exceptions that can reach the code of \<^verbatim>\<open>bill95.py\<close>. Each one carries the text
  that \<^verbatim>\<open>str(e)\<close> gives, because the main loop prints it. Python floats are modelled
  as \<^typ>\<open>real\<close>: the arithmetic below is the exact one, rounding is not modelled.
\<close>

datatype error =
    ValueError string
  | IndexError string
  | OverflowError string
  | LibraryError string

fun str_of_error :: "error \<Rightarrow> string" where
  "str_of_error (ValueError m) = m"
| "str_of_error (IndexError m) = m"
| "str_of_error (OverflowError m) = m"
| "str_of_error (LibraryError m) = m"

section \<open>RRD 95th percentile calculation\<close>

text \<open>
  What \<^verbatim>\<open>rrdtool.fetch\<close> returns: the names of the data series and one row per step,
  each row holding one value per series or \<^verbatim>\<open>None\<close>. The triple
  \<^verbatim>\<open>(start, end, step)\<close> is bound and never read, so it is left out.
\<close>

type_synonym row = "real option list"

record fetch_result =
  fr_names :: "string list"
  fr_data :: "row list"

type_synonym fetcher = "string \<Rightarrow> int \<Rightarrow> int \<Rightarrow> error + fetch_result"

text \<open>\<^verbatim>\<open>row[i]\<close> on a tuple, for the two non-negative indices the code uses.\<close>

definition row_at :: "row \<Rightarrow> nat \<Rightarrow> error + real option" where
  "row_at r i = (if i < length r then Inr (r ! i) else Inl (IndexError ''tuple index out of range''))"

text \<open>\<^verbatim>\<open>max(a, b)\<close> of Python: the first argument unless the second is greater.\<close>

definition py_max2 :: "real \<Rightarrow> real \<Rightarrow> real" where
  "py_max2 a b = (if b > a then b else a)"

text \<open>
  The list comprehension of lines 31-32. The condition is evaluated first and
  \<^verbatim>\<open>and\<close> short-circuits: \<^verbatim>\<open>row[1]\<close> is read only when \<^verbatim>\<open>row[0]\<close> is not
  \<^verbatim>\<open>None\<close>.
\<close>

fun combined_vals :: "row list \<Rightarrow> error + real list" where
  "combined_vals [] = Inr []"
| "combined_vals (r # rows) =
     (case row_at r 0 of
        Inl e \<Rightarrow> Inl e
      | Inr None \<Rightarrow> combined_vals rows
      | Inr (Some a) \<Rightarrow>
          (case row_at r 1 of
             Inl e \<Rightarrow> Inl e
           | Inr None \<Rightarrow> combined_vals rows
           | Inr (Some b) \<Rightarrow>
               (case combined_vals rows of
                  Inl e \<Rightarrow> Inl e
                | Inr vs \<Rightarrow> Inr (py_max2 a b # vs))))"

text \<open>
  \<^verbatim>\<open>np.percentile(a, q)\<close> with numpy's default method \<^verbatim>\<open>linear\<close>, on a non-empty
  one-dimensional array and \<^verbatim>\<open>0 \<le> q \<le> 100\<close>: the virtual index is
  \<^verbatim>\<open>(n - 1) * (q / 100)\<close>, the two neighbours are its floor and the floor plus one,
  both replaced by the last position when the virtual index reaches \<^verbatim>\<open>n - 1\<close>, and
  the result is numpy's \<^verbatim>\<open>_lerp\<close> of the two order statistics.
\<close>

definition np_lerp :: "real \<Rightarrow> real \<Rightarrow> real \<Rightarrow> real" where
  "np_lerp a b t = (if t \<ge> 1 / 2 then b - (b - a) * (1 - t) else a + (b - a) * t)"

definition np_percentile :: "real list \<Rightarrow> real \<Rightarrow> real" where
  "np_percentile a q =
     (let arr = sort a;
          n = length arr;
          virtual_index = (real n - 1) * (q / 100);
          above = (virtual_index \<ge> real n - 1);
          previous_index = (if above then n - 1 else nat \<lfloor>virtual_index\<rfloor>);
          next_index = (if above then n - 1 else nat \<lfloor>virtual_index\<rfloor> + 1);
          gamma = virtual_index - of_int \<lfloor>virtual_index\<rfloor>
      in np_lerp (arr ! previous_index) (arr ! next_index) gamma)"

definition to_mbps :: "real \<Rightarrow> real" where
  "to_mbps v = v * 8 / 1000000"

definition compute_95th :: "fetcher \<Rightarrow> string \<Rightarrow> int \<Rightarrow> int \<Rightarrow> error + real" where
  "compute_95th fetch rrd_file start_ts end_ts =
     (case fetch rrd_file start_ts end_ts of
        Inl e \<Rightarrow> Inl e
      | Inr fr \<Rightarrow>
          if length (fr_names fr) < 2
          then Inl (ValueError (''RRD '' @ rrd_file @ '' must have at least two DS (in/out)''))
          else (case combined_vals (fr_data fr) of
                  Inl e \<Rightarrow> Inl e
                | Inr vals \<Rightarrow>
                    if vals = [] then Inr 0
                    else Inr (np_percentile (map to_mbps vals) 95)))"

section \<open>Date range calculation and month label\<close>

text \<open>
  A naive local \<^verbatim>\<open>datetime\<close>. Microseconds are left out: the code reads only the
  year and the month of \<^verbatim>\<open>now\<close>, and \<^verbatim>\<open>int(...)\<close> drops them from the timestamp.
\<close>

record datetime =
  dt_year :: nat
  dt_month :: nat
  dt_day :: nat
  dt_hour :: nat
  dt_minute :: nat
  dt_second :: nat

definition is_leap :: "nat \<Rightarrow> bool" where
  "is_leap y = (y mod 4 = 0 \<and> (y mod 100 \<noteq> 0 \<or> y mod 400 = 0))"

definition days_in_month :: "nat \<Rightarrow> nat \<Rightarrow> nat" where
  "days_in_month y m =
     (if m = 2 then (if is_leap y then 29 else 28)
      else if m = 4 \<or> m = 6 \<or> m = 9 \<or> m = 11 then 30 else 31)"

text \<open>\<^verbatim>\<open>datetime.datetime(y, m, 1)\<close>: midnight of the first day of the month.\<close>

definition first_of_month :: "nat \<Rightarrow> nat \<Rightarrow> datetime" where
  "first_of_month y m =
     \<lparr>dt_year = y, dt_month = m, dt_day = 1, dt_hour = 0, dt_minute = 0, dt_second = 0\<rparr>"

text \<open>
  \<^verbatim>\<open>d - datetime.timedelta(seconds=1)\<close> in the proleptic Gregorian calendar of the
  \<^verbatim>\<open>datetime\<close> module, which has no year before 1.
\<close>

definition minus_one_second :: "datetime \<Rightarrow> error + datetime" where
  "minus_one_second d =
     (if 0 < dt_second d then Inr (d\<lparr>dt_second := dt_second d - 1\<rparr>)
      else if 0 < dt_minute d then Inr (d\<lparr>dt_minute := dt_minute d - 1, dt_second := 59\<rparr>)
      else if 0 < dt_hour d
        then Inr (d\<lparr>dt_hour := dt_hour d - 1, dt_minute := 59, dt_second := 59\<rparr>)
      else if 1 < dt_day d
        then Inr (d\<lparr>dt_day := dt_day d - 1, dt_hour := 23, dt_minute := 59, dt_second := 59\<rparr>)
      else if 1 < dt_month d
        then Inr \<lparr>dt_year = dt_year d, dt_month = dt_month d - 1,
                  dt_day = days_in_month (dt_year d) (dt_month d - 1),
                  dt_hour = 23, dt_minute = 59, dt_second = 59\<rparr>
      else if 1 < dt_year d
        then Inr \<lparr>dt_year = dt_year d - 1, dt_month = 12, dt_day = 31,
                  dt_hour = 23, dt_minute = 59, dt_second = 59\<rparr>
      else Inl (OverflowError ''date value out of range''))"

text \<open>
  \<^verbatim>\<open>int(d.timestamp())\<close> depends on the time zone of the host; it is the parameter
  \<open>mktime\<close>. \<open>now\<close> is the value of \<^verbatim>\<open>datetime.datetime.now()\<close>.
\<close>

definition get_date_range :: "(datetime \<Rightarrow> int) \<Rightarrow> datetime \<Rightarrow> bool \<Rightarrow> error + int \<times> int" where
  "get_date_range mktime now prev_month =
     (if prev_month then
        (let first_this_month = first_of_month (dt_year now) (dt_month now) in
         case minus_one_second first_this_month of
           Inl e \<Rightarrow> Inl e
         | Inr last_month_end \<Rightarrow>
             (let last_month_start =
                    first_of_month (dt_year last_month_end) (dt_month last_month_end)
              in Inr (mktime last_month_start, mktime last_month_end)))
      else
        (let start_month = first_of_month (dt_year now) (dt_month now)
         in Inr (mktime start_month, mktime now)))"

definition digit_char :: "nat \<Rightarrow> char" where
  "digit_char n = ''0123456789'' ! n"

fun str_nat :: "nat \<Rightarrow> string" where
  "str_nat n = (if n < 10 then [digit_char n] else str_nat (n div 10) @ [digit_char (n mod 10)])"

declare str_nat.simps [simp del]

definition str_int :: "int \<Rightarrow> string" where
  "str_int i = (if i < 0 then ''-'' @ str_nat (nat (- i)) else str_nat (nat i))"

definition month_name :: "nat \<Rightarrow> string" where
  "month_name m =
     [''January'', ''February'', ''March'', ''April'', ''May'', ''June'', ''July'',
      ''August'', ''September'', ''October'', ''November'', ''December''] ! (m - 1)"

text \<open>\<^verbatim>\<open>d.strftime("%B %Y")\<close> in the C locale.\<close>

definition strftime_B_Y :: "datetime \<Rightarrow> string" where
  "strftime_B_Y d = month_name (dt_month d) @ '' '' @ str_nat (dt_year d)"

definition get_month_label :: "datetime \<Rightarrow> bool \<Rightarrow> error + string" where
  "get_month_label now prev_month =
     (if prev_month then
        (let first_this_month = first_of_month (dt_year now) (dt_month now) in
         case minus_one_second first_this_month of
           Inl e \<Rightarrow> Inl e
         | Inr last_month_end \<Rightarrow> Inr (strftime_B_Y last_month_end))
      else Inr (strftime_B_Y now))"

section \<open>Observium DB: customer interfaces\<close>

text \<open>
  Strings hold one \<^typ>\<open>char\<close> per code point, so the aliases are Latin-1 text.
  \<^verbatim>\<open>alias.split(":", 1)\<close> cuts at the first colon only.
\<close>

definition split_colon1 :: "string \<Rightarrow> string list" where
  "split_colon1 s =
     (let before = takeWhile (\<lambda>c. c \<noteq> CHR '':'') s;
          rest = dropWhile (\<lambda>c. c \<noteq> CHR '':'') s
      in if rest = [] then [before] else [before, tl rest])"

definition list_at :: "'a list \<Rightarrow> nat \<Rightarrow> error + 'a" where
  "list_at xs i = (if i < length xs then Inr (xs ! i) else Inl (IndexError ''list index out of range''))"

text \<open>The characters for which \<^verbatim>\<open>str.isspace\<close> holds, among the first 256 code points.\<close>

definition py_isspace :: "char \<Rightarrow> bool" where
  "py_isspace c =
     (c \<in> set [CHR 0x09, CHR 0x0A, CHR 0x0B, CHR 0x0C, CHR 0x0D, CHR 0x1C, CHR 0x1D,
               CHR 0x1E, CHR 0x1F, CHR 0x20, CHR 0x85, CHR 0xA0])"

definition py_strip :: "string \<Rightarrow> string" where
  "py_strip s = rev (dropWhile py_isspace (rev (dropWhile py_isspace s)))"

text \<open>Lines 108-111: the \<^verbatim>\<open>try\<close> block with its \<^verbatim>\<open>except IndexError\<close>.\<close>

definition cust_name_of :: "string \<Rightarrow> string" where
  "cust_name_of alias =
     (case list_at (split_colon1 alias) 1 of
        Inl e \<Rightarrow> ''Unknown''
      | Inr s \<Rightarrow> py_strip s)"

text \<open>\<^verbatim>\<open>os.path.join\<close> of posixpath, one component at a time.\<close>

definition path_join :: "string \<Rightarrow> string \<Rightarrow> string" where
  "path_join path b =
     (if b \<noteq> [] \<and> hd b = CHR ''/'' then b
      else if path = [] \<or> last path = CHR ''/'' then path @ b
      else path @ ''/'' @ b)"

record port_row =
  ifIndex :: int
  ifAlias :: string
  hostname :: string

definition rrd_file_of :: "string \<Rightarrow> port_row \<Rightarrow> string" where
  "rrd_file_of rrd_base r =
     path_join (path_join rrd_base (hostname r)) (''port-'' @ str_int (ifIndex r) @ ''.rrd'')"

text \<open>
  The \<^verbatim>\<open>defaultdict(list)\<close>: a dictionary keeps its keys in the order of their first
  insertion, so it is an association list, and \<^verbatim>\<open>customers[k].append(v)\<close> is
  \<open>dict_append\<close>.
\<close>

type_synonym customers = "(string \<times> string list) list"

fun dict_append :: "string \<Rightarrow> string \<Rightarrow> customers \<Rightarrow> customers" where
  "dict_append k v [] = [(k, [v])]"
| "dict_append k v ((k', vs) # d) =
     (if k = k' then (k', vs @ [v]) # d else (k', vs) # dict_append k v d)"

text \<open>The loop of lines 106-118; the second component is what it prints.\<close>

fun load_rows :: "(string \<Rightarrow> bool) \<Rightarrow> string \<Rightarrow> port_row list \<Rightarrow> customers \<Rightarrow> customers \<times> string list" where
  "load_rows file_exists rrd_base [] customers = (customers, [])"
| "load_rows file_exists rrd_base (r # rows) customers =
     (let alias = ifAlias r;
          cust_name = cust_name_of alias;
          rrd_file = rrd_file_of rrd_base r
      in if file_exists rrd_file
         then load_rows file_exists rrd_base rows (dict_append cust_name rrd_file customers)
         else (case load_rows file_exists rrd_base rows customers of
                 (cs, printed) \<Rightarrow>
                   (cs, (''Warning: RRD file not found for interface '' @ [CHR 0x27] @ alias
                         @ [CHR 0x27] @ '': '' @ rrd_file) # printed)))"

text \<open>
  The query result is the parameter \<open>query\<close>: the rows the database returned, or the
  exception of the connector.
\<close>

definition load_customer_interfaces ::
  "(error + port_row list) \<Rightarrow> (string \<Rightarrow> bool) \<Rightarrow> string \<Rightarrow> error + customers \<times> string list" where
  "load_customer_interfaces query file_exists rrd_base =
     (case query of
        Inl e \<Rightarrow> Inl e
      | Inr rows \<Rightarrow>
          if rows = []
          then Inr ([], [''Warning: No interfaces found with ifAlias starting with '' @ [CHR 0x27]
                         @ ''Cust:'' @ [CHR 0x27]])
          else Inr (load_rows file_exists rrd_base rows []))"

section \<open>Main\<close>

text \<open>The inner loop of lines 144-149: the values computed and the errors printed.\<close>

fun read_rrds :: "fetcher \<Rightarrow> int \<Rightarrow> int \<Rightarrow> string list \<Rightarrow> real list \<times> string list" where
  "read_rrds fetch start_ts end_ts [] = ([], [])"
| "read_rrds fetch start_ts end_ts (rrd # rrd_list) =
     (case read_rrds fetch start_ts end_ts rrd_list of
        (combined_samples, printed) \<Rightarrow>
          (case compute_95th fetch rrd start_ts end_ts of
             Inr val \<Rightarrow> (val # combined_samples, printed)
           | Inl e \<Rightarrow>
               (combined_samples,
                (''Error reading '' @ rrd @ '': '' @ str_of_error e) # printed)))"

text \<open>Lines 150-153; \<^verbatim>\<open>max\<close> of a list keeps the first of its greatest items.\<close>

definition val_95_of :: "real list \<Rightarrow> real" where
  "val_95_of combined_samples =
     (case combined_samples of
        [] \<Rightarrow> 0
      | x # xs \<Rightarrow> foldl py_max2 x xs)"

fun bill_customers :: "fetcher \<Rightarrow> int \<Rightarrow> int \<Rightarrow> customers \<Rightarrow> (string \<times> real) list \<times> string list" where
  "bill_customers fetch start_ts end_ts [] = ([], [])"
| "bill_customers fetch start_ts end_ts ((cust_name, rrd_list) # cs) =
     (case read_rrds fetch start_ts end_ts rrd_list of
        (combined_samples, printed) \<Rightarrow>
          (case bill_customers fetch start_ts end_ts cs of
             (results, printed') \<Rightarrow>
               ((cust_name, val_95_of combined_samples) # results, printed @ printed')))"

text \<open>
  The format \<^verbatim>\<open>:.2f\<close> of a float: the exact value of the float with two decimals,
  rounded to the nearest, a tie to the even digit, the sign kept. (The negative zero of
  the floats has no counterpart among the reals.)
\<close>

definition round_half_even :: "real \<Rightarrow> int" where
  "round_half_even x =
     (let f = \<lfloor>x\<rfloor>; d = x - of_int f
      in if d < 1 / 2 then f else if d > 1 / 2 then f + 1 else if even f then f else f + 1)"

definition fmt2f :: "real \<Rightarrow> string" where
  "fmt2f x =
     (let n = nat (round_half_even (\<bar>x\<bar> * 100))
      in (if x < 0 then ''-'' else []) @ str_nat (n div 100) @ ''.''
         @ [digit_char (n mod 100 div 10), digit_char (n mod 10)])"

text \<open>
  The figure that is formatted is a binary64 float. The model computes the figure
  exactly, so it is rounded here to the nearest float (a tie to the even significand,
  53 bits, subnormal below \<open>2 ^ -1022\<close>; the overflow to infinity is left out):
  \<open>float64_exponent\<close> is the exponent \<open>e\<close> with \<open>2 ^ e \<le> \<bar>x\<bar> < 2 ^ (e + 1)\<close>, found by
  halving or doubling, and \<open>float64_ulp\<close> the gap between the floats around \<open>x\<close>.
\<close>

function halvings :: "real \<Rightarrow> nat" where
  "halvings x = (if x < 2 then 0 else Suc (halvings (x / 2)))"
  by pat_completeness auto
termination
proof (relation "measure (\<lambda>x. nat \<lfloor>x\<rfloor>)")
  show "wf (measure (\<lambda>x::real. nat \<lfloor>x\<rfloor>))" by simp
next
  fix x :: real
  assume "\<not> x < 2"
  then have "x / 2 \<le> x - 1" by simp
  then have "\<lfloor>x / 2\<rfloor> \<le> \<lfloor>x - 1\<rfloor>" by (rule floor_mono)
  moreover have "\<lfloor>x - 1\<rfloor> = \<lfloor>x\<rfloor> - 1" by simp
  moreover have "1 \<le> \<lfloor>x\<rfloor>" using \<open>\<not> x < 2\<close> by simp
  ultimately show "(x / 2, x) \<in> measure (\<lambda>x. nat \<lfloor>x\<rfloor>)" by simp
qed

function doublings :: "real \<Rightarrow> nat" where
  "doublings x = (if x \<le> 0 \<or> 1 \<le> x then 0 else Suc (doublings (x * 2)))"
  by pat_completeness auto
termination
proof (relation "measure (\<lambda>x. nat \<lceil>1 / x\<rceil>)")
  show "wf (measure (\<lambda>x::real. nat \<lceil>1 / x\<rceil>))" by simp
next
  fix x :: real
  assume "\<not> (x \<le> 0 \<or> 1 \<le> x)"
  then have x: "0 < x" "x < 1" by simp_all
  then have "1 < 1 / x" by simp
  then have c: "2 \<le> \<lceil>1 / x\<rceil>" by linarith
  have "1 / (x * 2) = (1 / x) / 2" by simp
  also have "\<dots> \<le> of_int \<lceil>1 / x\<rceil> / 2" by (simp add: divide_right_mono)
  also have "\<dots> \<le> of_int (\<lceil>1 / x\<rceil> - 1)" using c by simp
  finally have "\<lceil>1 / (x * 2)\<rceil> \<le> \<lceil>1 / x\<rceil> - 1" by (simp only: ceiling_le_iff)
  then have "nat \<lceil>1 / (x * 2)\<rceil> < nat \<lceil>1 / x\<rceil>" using c by linarith
  then show "(x * 2, x) \<in> measure (\<lambda>x. nat \<lceil>1 / x\<rceil>)" by (simp only: in_measure)
qed

declare halvings.simps [simp del] doublings.simps [simp del]

definition pow2 :: "int \<Rightarrow> real" where
  "pow2 e = (if 0 \<le> e then 2 ^ nat e else 1 / 2 ^ nat (- e))"

definition float64_exponent :: "real \<Rightarrow> int" where
  "float64_exponent x =
     (if 1 \<le> \<bar>x\<bar> then int (halvings \<bar>x\<bar>) else - int (doublings \<bar>x\<bar>))"

definition float64_ulp :: "real \<Rightarrow> real" where
  "float64_ulp x = pow2 (max (float64_exponent x) (- 1022) - 52)"

definition float64_round :: "real \<Rightarrow> real" where
  "float64_round x =
     (if x < 0 then - 1 else 1) * of_int (round_half_even (\<bar>x\<bar> / float64_ulp x)) * float64_ulp x"

definition report_line :: "string \<times> real \<Rightarrow> string" where
  "report_line res = fst res @ '': '' @ fmt2f (float64_round (snd res)) @ '' Mbps''"

fun join_nl :: "string list \<Rightarrow> string" where
  "join_nl [] = []"
| "join_nl [l] = l"
| "join_nl (l # ls) = l @ [CHR 0x0A] @ join_nl ls"

definition report_title :: "string \<Rightarrow> string" where
  "report_title month_label = ''95th Percentile Billing Report for '' @ month_label"

definition build_report :: "string \<Rightarrow> (string \<times> real) list \<Rightarrow> string" where
  "build_report month_label results =
     (let lines = map report_line results;
          header = report_title month_label @ [CHR 0x0A]
      in header @ [CHR 0x0A] @ join_nl lines)"

record args =
  arg_observium_config :: string
  arg_prev :: bool
  arg_email :: "string option"
  arg_rrd_base :: string

text \<open>
  What the run reads from outside: the clock and the time zone, the outcome of reading
  the configuration file, of the database query and of the mail delivery (\<open>None\<close> when
  no exception is raised), the file system and the RRD files. The two functions of the
  period read the clock one after the other; both reads are taken to give \<open>env_now\<close>.
\<close>

record env =
  env_now :: datetime
  env_mktime :: "datetime \<Rightarrow> int"
  env_config :: "string \<Rightarrow> error option"
  env_query :: "error + port_row list"
  env_exists :: "string \<Rightarrow> bool"
  env_fetch :: fetcher
  env_smtp :: "error option"

text \<open>
  What the run does: the texts given to \<^verbatim>\<open>print\<close>, the mail sent (recipient, subject,
  body) and the exit status of the interpreter, 1 when an exception leaves \<^verbatim>\<open>main\<close>.
\<close>

record outcome =
  out_stdout :: "string list"
  out_mail :: "(string \<times> string \<times> string) option"
  out_exit :: nat

definition uncaught :: "string list \<Rightarrow> outcome" where
  "uncaught printed = \<lparr>out_stdout = printed, out_mail = None, out_exit = 1\<rparr>"

definition main :: "env \<Rightarrow> args \<Rightarrow> outcome" where
  "main ev a =
     (case get_date_range (env_mktime ev) (env_now ev) (arg_prev a) of
        Inl e \<Rightarrow> uncaught []
      | Inr (start_ts, end_ts) \<Rightarrow>
     (case get_month_label (env_now ev) (arg_prev a) of
        Inl e \<Rightarrow> uncaught []
      | Inr month_label \<Rightarrow>
     (case env_config ev (arg_observium_config a) of
        Some e \<Rightarrow> uncaught []
      | None \<Rightarrow>
     (case load_customer_interfaces (env_query ev) (env_exists ev) (arg_rrd_base a) of
        Inl e \<Rightarrow> uncaught []
      | Inr (customers, warnings) \<Rightarrow>
          if customers = []
          then \<lparr>out_stdout = warnings @ [''No customers with RRDs found. Exiting.''],
                out_mail = None, out_exit = 0\<rparr>
          else
            (case bill_customers (env_fetch ev) start_ts end_ts customers of
               (results, printed) \<Rightarrow>
                 (let report = build_report month_label results in
                  case arg_email a of
                    None \<Rightarrow>
                      \<lparr>out_stdout = warnings @ printed @ [report], out_mail = None, out_exit = 0\<rparr>
                  | Some to_addr \<Rightarrow>
                      if to_addr = []
                      then \<lparr>out_stdout = warnings @ printed @ [report], out_mail = None,
                            out_exit = 0\<rparr>
                      else (case env_smtp ev of
                              Some e \<Rightarrow> uncaught (warnings @ printed)
                            | None \<Rightarrow>
                                \<lparr>out_stdout = warnings @ printed,
                                 out_mail = Some (to_addr, report_title month_label, report),
                                 out_exit = 0\<rparr>)))))))"

section \<open>The specification's reference definitions\<close>

text \<open>
  The percentile as the specification words it, over the samples of one interface, a
  sample being a row whose first two entries are the inbound and the outbound rate:
  the larger direction of every sample with both directions present, times 8 over
  1000000, sorted ascending, then the interpolation at index \<open>0.95 * (n - 1)\<close>
  between the floor and the ceiling rank; no sample, no charge.
\<close>

definition in_rate :: "row \<Rightarrow> real option" where
  "in_rate r = r ! 0"

definition out_rate :: "row \<Rightarrow> real option" where
  "out_rate r = r ! 1"

definition both_present :: "row \<Rightarrow> bool" where
  "both_present r = (in_rate r \<noteq> None \<and> out_rate r \<noteq> None)"

definition combinedRate :: "row \<Rightarrow> real" where
  "combinedRate r = max (the (in_rate r)) (the (out_rate r))"

definition interpolate95 :: "real list \<Rightarrow> real" where
  "interpolate95 s =
     (let n = length s;
          idx = 0.95 * (real n - 1);
          lo = nat \<lfloor>idx\<rfloor>;
          hi = nat \<lceil>idx\<rceil>
      in s ! lo + (idx - real lo) * (s ! hi - s ! lo))"

definition percentile95_spec :: "row list \<Rightarrow> real" where
  "percentile95_spec samples =
     (let mbps = map (\<lambda>r. combinedRate r * 8 / 1000000) (filter both_present samples)
      in if mbps = [] then 0 else interpolate95 (sort mbps))"







text \<open>The order in which the elements of a list are first seen.\<close>

fun first_seen :: "'a list \<Rightarrow> 'a list" where
  "first_seen [] = []"
| "first_seen (x # xs) = x # filter (\<lambda>y. y \<noteq> x) (first_seen xs)"

text \<open>
  What \<^verbatim>\<open>rrdtool.fetch\<close> guarantees about its result: every row has one entry per
  data series.
\<close>

definition well_formed :: "fetch_result \<Rightarrow> bool" where
  "well_formed fr = list_all (\<lambda>r. length r = length (fr_names fr)) (fr_data fr)"

section \<open>Example inputs\<close>

text \<open>Fetch results used to run the definitions on concrete data.\<close>

definition negative_fetch :: fetcher where
  "negative_fetch rrd_file start_ts end_ts =
     Inr \<lparr>fr_names = [''INOCTETS'', ''OUTOCTETS''],
          fr_data = [[Some (- 1000000), Some (- 2000000)]]\<rparr>"

definition three_series_fetch :: fetcher where
  "three_series_fetch rrd_file start_ts end_ts =
     Inr \<lparr>fr_names = [''a'', ''b'', ''c''],
          fr_data = [[Some 1000000, Some 2000000, Some 3000000]]\<rparr>"

definition three_series_reordered_fetch :: fetcher where
  "three_series_reordered_fetch rrd_file start_ts end_ts =
     Inr \<lparr>fr_names = [''c'', ''b'', ''a''],
          fr_data = [[Some 3000000, Some 2000000, Some 1000000]]\<rparr>"

definition one_sample_fetch :: fetcher where
  "one_sample_fetch rrd_file start_ts end_ts =
     Inr \<lparr>fr_names = [''INOCTETS'', ''OUTOCTETS''],
          fr_data = [[Some 1250000, Some 625000]]\<rparr>"

definition gappy_fetch :: fetcher where
  "gappy_fetch rrd_file start_ts end_ts =
     Inr \<lparr>fr_names = [''INOCTETS'', ''OUTOCTETS''],
          fr_data = [[None, Some 0], [Some 1250000, Some 625000], [Some 0, None], [None, None]]\<rparr>"

definition renamed_fetch :: fetcher where
  "renamed_fetch rrd_file start_ts end_ts =
     Inr \<lparr>fr_names = [''OUTOCTETS'', ''INOCTETS'', ''INERRORS''],
          fr_data = [[Some 1250000, Some 625000, Some 9000000]]\<rparr>"

text \<open>
  Three RRD files: the first two hold one sample each, of 10 and 42.5 Mbps, and the
  third cannot be opened.
\<close>

definition example_fetch :: fetcher where
  "example_fetch rrd_file start_ts end_ts =
     (if rrd_file = ''/rrd/r1/port-1.rrd''
      then Inr \<lparr>fr_names = [''INOCTETS'', ''OUTOCTETS''], fr_data = [[Some 1250000, Some 0]]\<rparr>
      else if rrd_file = ''/rrd/r1/port-2.rrd''
      then Inr \<lparr>fr_names = [''INOCTETS'', ''OUTOCTETS''], fr_data = [[Some 100, Some 5312500]]\<rparr>
      else Inl (LibraryError (''opening '' @ [CHR 0x27] @ rrd_file @ [CHR 0x27]
                              @ '': No such file or directory'')))"

definition example_customers :: customers where
  "example_customers =
     [(''Acme'', [''/rrd/r1/port-1.rrd'', ''/rrd/r1/port-2.rrd'']),
      (''Beta'', [''/rrd/r2/port-7.rrd''])]"

text \<open>
  The fetch result has no sample with both directions present and both rates negative.
\<close>

definition no_negative_sample :: "fetch_result \<Rightarrow> bool" where
  "no_negative_sample fr =
     list_all (\<lambda>r. case (row_at r 0, row_at r 1) of
                      (Inr (Some a), Inr (Some b)) \<Rightarrow> 0 \<le> a \<or> 0 \<le> b
                    | _ \<Rightarrow> True)
              (fr_data fr)"

text \<open>
  A run in September 2025 on a host in UTC whose database has no customer interface,
  and one whose database lists three interfaces of two customers, with the RRD files
  of \<open>example_fetch\<close>.
\<close>

definition example_now :: datetime where
  "example_now =
     \<lparr>dt_year = 2025, dt_month = 9, dt_day = 15, dt_hour = 10, dt_minute = 30, dt_second = 0\<rparr>"

definition example_args :: args where
  "example_args =
     \<lparr>arg_observium_config = ''/opt/observium/config.php'', arg_prev = True,
      arg_email = None, arg_rrd_base = ''/rrd''\<rparr>"

definition example_rows :: "port_row list" where
  "example_rows =
     [\<lparr>ifIndex = 1, ifAlias = ''Cust:Acme'', hostname = ''r1''\<rparr>,
      \<lparr>ifIndex = 7, ifAlias = ''Cust: Beta'', hostname = ''r2''\<rparr>,
      \<lparr>ifIndex = 2, ifAlias = ''cust:  Acme '', hostname = ''r1''\<rparr>]"

definition empty_env :: env where
  "empty_env =
     \<lparr>env_now = example_now, env_mktime = (\<lambda>d. 0), env_config = (\<lambda>p. None),
      env_query = Inr [], env_exists = (\<lambda>p. True), env_fetch = example_fetch,
      env_smtp = None\<rparr>"

definition example_env :: env where
  "example_env =
     \<lparr>env_now = example_now, env_mktime = (\<lambda>d. 0), env_config = (\<lambda>p. None),
      env_query = Inr example_rows, env_exists = (\<lambda>p. True), env_fetch = example_fetch,
      env_smtp = None\<rparr>"



text \<open>
  A directory of five rows for three customers, one of them without its RRD file.
\<close>

definition grouping_rows :: "port_row list" where
  "grouping_rows =
     [\<lparr>ifIndex = 7, ifAlias = ''Cust: Beta'', hostname = ''r2''\<rparr>,
      \<lparr>ifIndex = 2, ifAlias = ''cust:  Acme '', hostname = ''r1''\<rparr>,
      \<lparr>ifIndex = 9, ifAlias = ''Cust:Gamma'', hostname = ''r3''\<rparr>,
      \<lparr>ifIndex = 8, ifAlias = ''Cust:Beta'', hostname = ''r2''\<rparr>,
      \<lparr>ifIndex = 1, ifAlias = ''Cust:Acme'', hostname = ''r1''\<rparr>]"

definition grouping_exists :: "string \<Rightarrow> bool" where
  "grouping_exists path = (path \<noteq> ''/rrd/r3/port-9.rrd'')"

section \<open>Properties of the percentile\<close>

lemma np_lerp_convex: "np_lerp a b t = (1 - t) * a + t * b"
  by (simp add: np_lerp_def algebra_simps)

lemma np_lerp_lower:
  assumes "lo \<le> a" "lo \<le> b" "0 \<le> t" "t \<le> 1"
  shows "lo \<le> np_lerp a b t"
proof -
  have "(1 - t) * lo \<le> (1 - t) * a" using assms by (intro mult_left_mono) auto
  moreover have "t * lo \<le> t * b" using assms by (intro mult_left_mono) auto
  ultimately have "(1 - t) * lo + t * lo \<le> (1 - t) * a + t * b" by linarith
  then show ?thesis by (simp add: np_lerp_convex algebra_simps)
qed

lemma np_lerp_upper:
  assumes "a \<le> hi" "b \<le> hi" "0 \<le> t" "t \<le> 1"
  shows "np_lerp a b t \<le> hi"
proof -
  have "(1 - t) * a \<le> (1 - t) * hi" using assms by (intro mult_left_mono) auto
  moreover have "t * b \<le> t * hi" using assms by (intro mult_left_mono) auto
  ultimately have "(1 - t) * a + t * b \<le> (1 - t) * hi + t * hi" by linarith
  then show ?thesis by (simp add: np_lerp_convex algebra_simps)
qed

lemma gamma_bounds:
  fixes x :: real
  shows "0 \<le> x - of_int \<lfloor>x\<rfloor>" and "x - of_int \<lfloor>x\<rfloor> \<le> 1"
  by linarith+

lemma np_indices:
  fixes q :: real and n :: nat
  assumes "0 < n" "0 \<le> q" "q \<le> 100"
  defines "v \<equiv> (real n - 1) * (q / 100)"
  shows "(if v \<ge> real n - 1 then n - 1 else nat \<lfloor>v\<rfloor>) < n"
    and "(if v \<ge> real n - 1 then n - 1 else nat \<lfloor>v\<rfloor> + 1) < n"
proof -
  have "0 \<le> real n - 1" using assms(1) by simp
  then have v0: "0 \<le> v" unfolding v_def using assms(2) by simp
  have small: "nat \<lfloor>v\<rfloor> + 1 < n" if "\<not> v \<ge> real n - 1"
  proof -
    from that have "v < real_of_int (int n - 1)" by simp
    then have "\<lfloor>v\<rfloor> < int n - 1" by (simp only: floor_less_iff)
    moreover have "0 \<le> \<lfloor>v\<rfloor>" using v0 by simp
    ultimately show ?thesis by linarith
  qed
  show "(if v \<ge> real n - 1 then n - 1 else nat \<lfloor>v\<rfloor>) < n"
    using small assms(1) by (cases "v \<ge> real n - 1") auto
  show "(if v \<ge> real n - 1 then n - 1 else nat \<lfloor>v\<rfloor> + 1) < n"
    using small assms(1) by (cases "v \<ge> real n - 1") auto
qed

lemma np_percentile_lower:
  assumes "a \<noteq> []" "0 \<le> q" "q \<le> 100" "\<forall>x\<in>set a. lo \<le> x"
  shows "lo \<le> np_percentile a q"
proof -
  let ?arr = "sort a"
  have n: "0 < length ?arr" using assms(1) by simp
  have mem: "\<And>i. i < length ?arr \<Longrightarrow> lo \<le> ?arr ! i"
    using assms(4) by (metis nth_mem set_sort)
  show ?thesis
    unfolding np_percentile_def Let_def
    by (intro np_lerp_lower mem np_indices[OF n assms(2,3)] gamma_bounds)
qed

lemma np_percentile_upper:
  assumes "a \<noteq> []" "0 \<le> q" "q \<le> 100" "\<forall>x\<in>set a. x \<le> hi"
  shows "np_percentile a q \<le> hi"
proof -
  let ?arr = "sort a"
  have n: "0 < length ?arr" using assms(1) by simp
  have mem: "\<And>i. i < length ?arr \<Longrightarrow> ?arr ! i \<le> hi"
    using assms(4) by (metis nth_mem set_sort)
  show ?thesis
    unfolding np_percentile_def Let_def
    by (intro np_lerp_upper mem np_indices[OF n assms(2,3)] gamma_bounds)
qed

lemma np_percentile_const:
  assumes "a \<noteq> []" "\<forall>x\<in>set a. x = v"
  shows "np_percentile a 95 = v"
proof -
  have "v \<le> np_percentile a 95" using assms by (intro np_percentile_lower) auto
  moreover have "np_percentile a 95 \<le> v" using assms by (intro np_percentile_upper) auto
  ultimately show ?thesis by simp
qed

lemma combined_vals_wf:
  "\<forall>r\<in>set rows. 2 \<le> length r \<Longrightarrow>
   combined_vals rows = Inr (map combinedRate (filter both_present rows))"
proof (induction rows)
  case Nil
  then show ?case by simp
next
  case (Cons r rows)
  then have "2 \<le> length r" by simp
  then have len: "r \<noteq> []" "Suc 0 < length r" by auto
  have IH: "combined_vals rows = Inr (map combinedRate (filter both_present rows))"
    using Cons by simp
  have head: "both_present r \<longleftrightarrow> (\<exists>x y. r ! 0 = Some x \<and> r ! 1 = Some y)"
    by (auto simp: both_present_def in_rate_def out_rate_def)
  have rate: "r ! 0 = Some x \<Longrightarrow> r ! 1 = Some y \<Longrightarrow> combinedRate r = py_max2 x y" for x y
    by (simp add: combinedRate_def in_rate_def out_rate_def py_max2_def max_def)
  show ?case
    by (cases "r ! 0"; cases "r ! 1") (simp_all add: row_at_def len IH head rate)
qed

lemma np_percentile_interpolate95:
  assumes "a \<noteq> []"
  shows "np_percentile a 95 = interpolate95 (sort a)"
proof -
  define n where "n = length (sort a)"
  define v :: real where "v = (real n - 1) * (95 / 100)"
  have n: "0 < n" using assms by (simp add: n_def)
  have v0: "0 \<le> v" using n by (simp add: v_def)
  have idx: "0.95 * (real n - 1) = v" by (simp add: v_def)
  show ?thesis
  proof (cases "v \<ge> real n - 1")
    case True
    then have "n = 1" using n by (simp add: v_def)
    then have "v = 0" by (simp add: v_def)
    then show ?thesis
      using \<open>n = 1\<close>
      unfolding np_percentile_def interpolate95_def Let_def n_def[symmetric] v_def[symmetric] idx
      by (simp add: np_lerp_def)
  next
    case False
    show ?thesis
    proof (cases "of_int \<lfloor>v\<rfloor> = v")
      case True
      then have "\<lceil>v\<rceil> = \<lfloor>v\<rfloor>" by (metis ceiling_of_int)
      moreover have "v - of_int \<lfloor>v\<rfloor> = 0" using True by linarith
      moreover have "real (nat \<lfloor>v\<rfloor>) = of_int \<lfloor>v\<rfloor>" using v0 by simp
      ultimately show ?thesis
        using False
        unfolding np_percentile_def interpolate95_def Let_def n_def[symmetric] v_def[symmetric] idx
        by (simp add: np_lerp_def)
    next
      case nonint: False
      then have "\<lceil>v\<rceil> = \<lfloor>v\<rfloor> + 1" by (simp add: ceiling_altdef)
      moreover have "0 \<le> \<lfloor>v\<rfloor>" using v0 by simp
      ultimately have hi: "nat \<lceil>v\<rceil> = nat \<lfloor>v\<rfloor> + 1" by linarith
      have lo: "real (nat \<lfloor>v\<rfloor>) = of_int \<lfloor>v\<rfloor>" using \<open>0 \<le> \<lfloor>v\<rfloor>\<close> by simp
      show ?thesis
        using False
        unfolding np_percentile_def interpolate95_def Let_def n_def[symmetric] v_def[symmetric] idx hi lo
        by (simp add: np_lerp_convex algebra_simps)
    qed
  qed
qed

lemma well_formed_rows:
  "well_formed fr \<Longrightarrow> 2 \<le> length (fr_names fr) \<Longrightarrow> \<forall>r\<in>set (fr_data fr). 2 \<le> length r"
  by (simp add: well_formed_def list_all_iff)

lemma compute_95th_value:
  assumes "fetch rrd s e = Inr fr" "2 \<le> length (fr_names fr)" "well_formed fr"
  shows "compute_95th fetch rrd s e =
           Inr (if filter both_present (fr_data fr) = [] then 0
                else np_percentile
                       (map (\<lambda>r. combinedRate r * 8 / 1000000) (filter both_present (fr_data fr))) 95)"
proof -
  have "combined_vals (fr_data fr) = Inr (map combinedRate (filter both_present (fr_data fr)))"
    using well_formed_rows[OF assms(3,2)] by (rule combined_vals_wf)
  then show ?thesis
    using assms(1,2) by (simp add: compute_95th_def to_mbps_def comp_def)
qed

text \<open>
  C2: when the fetch succeeds with at least two series, \<open>compute_95th\<close> returns the
  percentile of the specification's reference definition: the larger direction of each
  sample with both directions present, in Mbps, sorted, interpolated linearly at index
  \<open>0.95 * (n - 1)\<close>. A single sample returns its own value in Mbps, and samples that
  all have the same combined rate return that rate in Mbps.
\<close>

theorem compute_95th_refines_spec:
  assumes "fetch rrd s e = Inr fr" "2 \<le> length (fr_names fr)" "well_formed fr"
  shows "compute_95th fetch rrd s e = Inr (percentile95_spec (fr_data fr))
       \<and> (\<forall>a b. fr_data fr = [[Some a, Some b]] \<longrightarrow>
              compute_95th fetch rrd s e = Inr (max a b * 8 / 1000000))
       \<and> (\<forall>c. (\<exists>r\<in>set (fr_data fr). both_present r)
              \<and> (\<forall>r\<in>set (fr_data fr). both_present r \<longrightarrow> combinedRate r = c) \<longrightarrow>
              compute_95th fetch rrd s e = Inr (c * 8 / 1000000))"
proof (intro conjI allI impI)
  note val = compute_95th_value[where fetch = fetch and rrd = rrd and s = s and e = e, OF assms]
  show "compute_95th fetch rrd s e = Inr (percentile95_spec (fr_data fr))"
    unfolding val percentile95_spec_def Let_def
    by (simp add: np_percentile_interpolate95)
  have const: "compute_95th fetch rrd s e = Inr (c * 8 / 1000000)"
    if "\<exists>r\<in>set (fr_data fr). both_present r"
       "\<forall>r\<in>set (fr_data fr). both_present r \<longrightarrow> combinedRate r = c" for c
  proof -
    let ?m = "map (\<lambda>r. combinedRate r * 8 / 1000000) (filter both_present (fr_data fr))"
    have ne: "filter both_present (fr_data fr) \<noteq> []"
      using that(1) by (simp add: filter_empty_conv)
    then have "?m \<noteq> []" by simp
    moreover have "\<forall>x\<in>set ?m. x = c * 8 / 1000000" using that(2) by auto
    ultimately have "np_percentile ?m 95 = c * 8 / 1000000" by (rule np_percentile_const)
    then show ?thesis unfolding val using ne by simp
  qed
  show "compute_95th fetch rrd s e = Inr (c * 8 / 1000000)"
    if "(\<exists>r\<in>set (fr_data fr). both_present r)
        \<and> (\<forall>r\<in>set (fr_data fr). both_present r \<longrightarrow> combinedRate r = c)" for c
    using that const by blast
  show "compute_95th fetch rrd s e = Inr (max a b * 8 / 1000000)"
    if "fr_data fr = [[Some a, Some b]]" for a b
    by (rule const) (simp_all add: that both_present_def combinedRate_def in_rate_def out_rate_def)
qed

theorem compute_95th_refines_spec_witness:
  "compute_95th one_sample_fetch ''port-1.rrd'' 0 60 = Inr 10
   \<and> percentile95_spec [[Some 1250000, Some 625000]] = 10"
proof -
  let ?fr = "\<lparr>fr_names = [''INOCTETS'', ''OUTOCTETS''], fr_data = [[Some 1250000, Some 625000]]\<rparr>"
  have f: "one_sample_fetch ''port-1.rrd'' 0 60 = Inr ?fr" by (simp add: one_sample_fetch_def)
  have n: "2 \<le> length (fr_names ?fr)" by simp
  have w: "well_formed ?fr" by (simp add: well_formed_def)
  note t = compute_95th_refines_spec[where fetch = one_sample_fetch and rrd = "''port-1.rrd''"
      and s = 0 and e = 60, OF f n w]
  have a: "compute_95th one_sample_fetch ''port-1.rrd'' 0 60
             = Inr (percentile95_spec [[Some 1250000, Some 625000]])"
    using t[THEN conjunct1] by simp
  have b: "compute_95th one_sample_fetch ''port-1.rrd'' 0 60 = Inr 10"
    using t[THEN conjunct2, THEN conjunct1] by simp
  from a b have "percentile95_spec [[Some 1250000, Some 625000]] = 10" by simp
  with b show ?thesis by simp
qed

section \<open>Gaps, negative rates and the choice of the series\<close>

text \<open>
  C5: a sample in which a direction is absent takes no part in the percentile. When one
  sample has both directions present and every other sample lacks at least one, the
  result is the value of that one sample in Mbps, wherever the gaps stand.
\<close>

theorem gaps_are_excluded:
  assumes "fetch rrd s e = Inr fr" "2 \<le> length (fr_names fr)" "well_formed fr"
    and "fr_data fr = gaps_before @ [r] @ gaps_after"
    and "in_rate r = Some a" "out_rate r = Some b"
    and "\<forall>g\<in>set (gaps_before @ gaps_after). in_rate g = None \<or> out_rate g = None"
  shows "compute_95th fetch rrd s e = Inr (max a b * 8 / 1000000)"
proof -
  have r: "both_present r" using assms(5,6) by (simp add: both_present_def)
  have gaps: "filter both_present gaps_before = []" "filter both_present gaps_after = []"
    using assms(7) by (auto simp: filter_empty_conv both_present_def)
  have valid: "filter both_present (fr_data fr) = [r]"
    by (simp add: assms(4) gaps r)
  have rate: "combinedRate r = max a b"
    using assms(5,6) by (simp add: combinedRate_def)
  have "np_percentile [max a b * 8 / 1000000] 95 = max a b * 8 / 1000000"
    by (rule np_percentile_const) simp_all
  then show ?thesis
    unfolding compute_95th_value[where fetch = fetch and rrd = rrd and s = s and e = e,
        OF assms(1-3)] valid
    by (simp add: rate)
qed

theorem gaps_are_excluded_witness:
  "compute_95th gappy_fetch ''port-1.rrd'' 0 60 = Inr 10"
proof -
  let ?fr = "\<lparr>fr_names = [''INOCTETS'', ''OUTOCTETS''],
          fr_data = [[None, Some 0], [Some 1250000, Some 625000], [Some 0, None], [None, None]]\<rparr>"
  have f: "gappy_fetch ''port-1.rrd'' 0 60 = Inr ?fr" by (simp add: gappy_fetch_def)
  have n: "2 \<le> length (fr_names ?fr)" by simp
  have w: "well_formed ?fr" by (simp add: well_formed_def)
  have d: "fr_data ?fr = [[None, Some 0]] @ [[Some 1250000, Some 625000]] @ [[Some 0, None], [None, None]]"
    by simp
  have i: "in_rate [Some 1250000, Some 625000] = Some 1250000" by (simp add: in_rate_def)
  have out: "out_rate [Some 1250000, Some 625000] = Some 625000" by (simp add: out_rate_def)
  have g: "\<forall>g\<in>set ([[None, Some 0]] @ [[Some 0, None], [None, None]]). in_rate g = None \<or> out_rate g = None"
    by (simp add: in_rate_def out_rate_def)
  from gaps_are_excluded[where fetch = gappy_fetch and rrd = "''port-1.rrd''" and s = 0 and e = 60,
      OF f n w d i out g]
  show ?thesis by simp
qed

text \<open>
  C3, as stated, fails: a sample with the rates -1000000 and -2000000 raises nothing and
  gives -8 Mbps.
\<close>

theorem negative_rate_counterexample:
  "compute_95th negative_fetch ''port-1.rrd'' 0 60 = Inr (- 8)"
  by (simp add: compute_95th_def negative_fetch_def row_at_def py_max2_def to_mbps_def
      np_percentile_def np_lerp_def)

text \<open>
  C3, amended: on a well-formed fetch result with at least two series the computation
  raises no error whatever the sign of the rates, and negative values take part like
  any other: when every sample with both directions present has a negative larger
  direction, the result is negative.
\<close>

theorem negative_rates_take_part:
  assumes "fetch rrd s e = Inr fr" "2 \<le> length (fr_names fr)" "well_formed fr"
  shows "\<exists>v. compute_95th fetch rrd s e = Inr v
           \<and> ((\<exists>r\<in>set (fr_data fr). both_present r)
               \<and> (\<forall>r\<in>set (fr_data fr). both_present r \<longrightarrow> combinedRate r < 0) \<longrightarrow> v < 0)"
proof -
  let ?valid = "filter both_present (fr_data fr)"
  let ?m = "map (\<lambda>r. combinedRate r * 8 / 1000000) ?valid"
  note val = compute_95th_value[where fetch = fetch and rrd = rrd and s = s and e = e, OF assms]
  have neg_result: "(if ?valid = [] then 0 else np_percentile ?m 95) < 0"
    if some: "\<exists>r\<in>set (fr_data fr). both_present r"
      and neg: "\<forall>r\<in>set (fr_data fr). both_present r \<longrightarrow> combinedRate r < 0"
  proof -
    have ne: "?valid \<noteq> []" using some by (simp add: filter_empty_conv)
    then have m_ne: "?m \<noteq> []" by simp
    define top where "top = Max (set ?m)"
    have "finite (set ?m)" by (rule finite_set)
    moreover have "set ?m \<noteq> {}" using m_ne by (simp only: set_empty not_False_eq_True)
    ultimately have "top \<in> set ?m" unfolding top_def by (rule Max_in)
    then have "top < 0" using neg by auto
    moreover have "\<forall>x\<in>set ?m. x \<le> top" unfolding top_def by simp
    then have "np_percentile ?m 95 \<le> top" using m_ne by (intro np_percentile_upper) auto
    ultimately show ?thesis using ne by simp
  qed
  show ?thesis
  proof (intro exI conjI impI)
    show "compute_95th fetch rrd s e = Inr (if ?valid = [] then 0 else np_percentile ?m 95)"
      by (rule val)
    assume "(\<exists>r\<in>set (fr_data fr). both_present r)
               \<and> (\<forall>r\<in>set (fr_data fr). both_present r \<longrightarrow> combinedRate r < 0)"
    then show "(if ?valid = [] then 0 else np_percentile ?m 95) < 0"
      using neg_result by blast
  qed
qed

theorem negative_rates_take_part_witness:
  "\<exists>v. compute_95th negative_fetch ''port-1.rrd'' 0 60 = Inr v \<and> v < 0"
proof -
  let ?fr = "\<lparr>fr_names = [''INOCTETS'', ''OUTOCTETS''],
          fr_data = [[Some (- 1000000), Some (- 2000000)]]\<rparr>"
  have f: "negative_fetch ''port-1.rrd'' 0 60 = Inr ?fr" by (simp add: negative_fetch_def)
  have n: "2 \<le> length (fr_names ?fr)" by simp
  have w: "well_formed ?fr" by (simp add: well_formed_def)
  have p: "(\<exists>r\<in>set (fr_data ?fr). both_present r)
           \<and> (\<forall>r\<in>set (fr_data ?fr). both_present r \<longrightarrow> combinedRate r < 0)"
    by (simp add: both_present_def combinedRate_def in_rate_def out_rate_def)
  from negative_rates_take_part[where fetch = negative_fetch and rrd = "''port-1.rrd''"
      and s = 0 and e = 60, OF f n w] p
  show ?thesis by blast
qed


lemma row_at_take2: "i < 2 \<Longrightarrow> row_at (take 2 r) i = row_at r i"
  by (auto simp: row_at_def)

lemma combined_vals_take2: "combined_vals (map (take 2) rows) = combined_vals rows"
  by (induction rows) (auto simp: row_at_take2 split: sum.splits option.splits)

text \<open>
  C9: with at least two series the result is a function of the entries at positions 0
  and 1 of the rows alone: two fetch results whose rows agree there give the same
  answer, whatever the series are called and whatever the further columns hold. So the
  order of the series matters: the same three series listed in another order give 24
  instead of 16.
\<close>

theorem series_chosen_by_position:
  "(fetch rrd s e = Inr fr \<and> fetch' rrd s e = Inr fr'
      \<and> 2 \<le> length (fr_names fr) \<and> 2 \<le> length (fr_names fr')
      \<and> map (take 2) (fr_data fr) = map (take 2) (fr_data fr')
    \<longrightarrow> compute_95th fetch rrd s e = compute_95th fetch' rrd s e)
   \<and> compute_95th three_series_fetch ''port-1.rrd'' 0 60 = Inr 16
   \<and> compute_95th three_series_reordered_fetch ''port-1.rrd'' 0 60 = Inr 24"
proof (intro conjI impI)
  assume a: "fetch rrd s e = Inr fr \<and> fetch' rrd s e = Inr fr'
      \<and> 2 \<le> length (fr_names fr) \<and> 2 \<le> length (fr_names fr')
      \<and> map (take 2) (fr_data fr) = map (take 2) (fr_data fr')"
  then have "combined_vals (fr_data fr) = combined_vals (fr_data fr')"
    by (metis combined_vals_take2)
  with a show "compute_95th fetch rrd s e = compute_95th fetch' rrd s e"
    by (simp add: compute_95th_def)
next
  show "compute_95th three_series_fetch ''port-1.rrd'' 0 60 = Inr 16"
    by (simp add: compute_95th_def three_series_fetch_def row_at_def py_max2_def to_mbps_def
      np_percentile_def np_lerp_def)
  show "compute_95th three_series_reordered_fetch ''port-1.rrd'' 0 60 = Inr 24"
    by (simp add: compute_95th_def three_series_reordered_fetch_def row_at_def py_max2_def to_mbps_def
      np_percentile_def np_lerp_def)
qed

theorem series_chosen_by_position_witness:
  "compute_95th renamed_fetch ''port-1.rrd'' 0 60 = Inr 10"
proof -
  let ?fr = "\<lparr>fr_names = [''INOCTETS'', ''OUTOCTETS''], fr_data = [[Some 1250000, Some 625000]]\<rparr>"
  let ?fr' = "\<lparr>fr_names = [''OUTOCTETS'', ''INOCTETS'', ''INERRORS''],
          fr_data = [[Some 1250000, Some 625000, Some 9000000]]\<rparr>"
  have h: "one_sample_fetch ''port-1.rrd'' 0 60 = Inr ?fr \<and> renamed_fetch ''port-1.rrd'' 0 60 = Inr ?fr'
      \<and> 2 \<le> length (fr_names ?fr) \<and> 2 \<le> length (fr_names ?fr')
      \<and> map (take 2) (fr_data ?fr) = map (take 2) (fr_data ?fr')"
    by (simp add: one_sample_fetch_def renamed_fetch_def)
  have v: "compute_95th one_sample_fetch ''port-1.rrd'' 0 60 = Inr 10"
    by (simp add: compute_95th_def one_sample_fetch_def row_at_def py_max2_def to_mbps_def
      np_percentile_def np_lerp_def)
  from series_chosen_by_position[where fetch = one_sample_fetch and fetch' = renamed_fetch
      and rrd = "''port-1.rrd''" and s = 0 and e = 60 and fr = ?fr and fr' = ?fr', THEN conjunct1] h
  have "compute_95th one_sample_fetch ''port-1.rrd'' 0 60 = compute_95th renamed_fetch ''port-1.rrd'' 0 60"
    by blast
  with v show ?thesis by simp
qed

section \<open>The customer's bill\<close>

lemma py_max2_max: "py_max2 a b = max a b"
  by (simp add: py_max2_def max_def)

lemma val_95_of_Max: "xs \<noteq> [] \<Longrightarrow> val_95_of xs = Max (set xs)"
proof (cases xs)
  case Nil
  then show "xs \<noteq> [] \<Longrightarrow> ?thesis" by simp
next
  case (Cons x ys)
  have pm: "py_max2 = (max :: real \<Rightarrow> real \<Rightarrow> real)"
    by (intro ext) (rule py_max2_max)
  have "foldl py_max2 x ys = fold (\<lambda>y m. max m y) ys x"
    by (simp only: pm foldl_conv_fold)
  also have "(\<lambda>y m. max m y) = (max :: real \<Rightarrow> real \<Rightarrow> real)"
    by (intro ext) (rule max.commute)
  also have "fold max ys x = Max (set (x # ys))"
    by (simp only: Max.set_eq_fold)
  finally have "foldl py_max2 x ys = Max (set (x # ys))" .
  then show ?thesis unfolding val_95_of_def Cons by (simp only: list.case)
qed

lemma read_rrds_set:
  "set (fst (read_rrds fetch s e rrds)) = {v. \<exists>rrd\<in>set rrds. compute_95th fetch rrd s e = Inr v}"
  by (induction rrds) (auto split: prod.splits sum.splits)

lemma bill_customers_results:
  "fst (bill_customers fetch s e cs)
     = map (\<lambda>(c, rrds). (c, val_95_of (fst (read_rrds fetch s e rrds)))) cs"
  by (induction cs) (auto split: prod.splits)

lemma val_95_of_set:
  "val_95_of xs = (if set xs = {} then 0 else Max (set xs))"
  by (cases "xs = []") (simp_all add: val_95_of_Max, simp add: val_95_of_def)

text \<open>
  C1: the figure of every customer is the greatest of the percentiles that were computed
  for the customer's interfaces, and 0 when none was computed.
\<close>

theorem customer_bill_is_max:
  "fst (bill_customers fetch s e customers)
     = map (\<lambda>(cust_name, rrd_list).
              (cust_name,
               let computed = {v. \<exists>rrd\<in>set rrd_list. compute_95th fetch rrd s e = Inr v}
               in if computed = {} then 0 else Max computed))
           customers"
  unfolding bill_customers_results
  by (rule map_cong) (auto simp: val_95_of_set read_rrds_set Let_def)

lemma example_fetch_values:
  "compute_95th example_fetch ''/rrd/r1/port-1.rrd'' s e = Inr 10"
  "compute_95th example_fetch ''/rrd/r1/port-2.rrd'' s e = Inr (85 / 2)"
  "compute_95th example_fetch ''/rrd/r2/port-7.rrd'' s e
     = Inl (LibraryError ''opening '/rrd/r2/port-7.rrd': No such file or directory'')"
  by (simp_all add: compute_95th_def example_fetch_def row_at_def py_max2_def to_mbps_def
      np_percentile_def np_lerp_def)

lemma example_bill:
  "fst (bill_customers example_fetch s e example_customers) = [(''Acme'', 85 / 2), (''Beta'', 0)]"
  by (simp add: example_customers_def example_fetch_values val_95_of_def py_max2_def)

theorem customer_bill_is_max_witness:
  "map (\<lambda>(cust_name, rrd_list).
          (cust_name,
           let computed = {v. \<exists>rrd\<in>set rrd_list. compute_95th example_fetch rrd 0 60 = Inr v}
           in if computed = {} then 0 else Max computed))
       example_customers
   = [(''Acme'', 85 / 2), (''Beta'', 0)]"
  using customer_bill_is_max[of example_fetch 0 60 example_customers] example_bill
  by simp

section \<open>The billing period\<close>

lemma str_nat_2025: "str_nat 2025 = ''2025''"
  by (simp add: str_nat.simps digit_char_def)

text \<open>
  C6: in previous-month mode, at any time of the day on 2025-09-15, the window runs from
  2025-08-01 00:00:00 to 2025-08-31 23:59:59 local time, each converted to a timestamp
  by the host's time zone, the label is "August 2025", and the end of the window is one
  second before the first instant of September 2025.
\<close>

theorem previous_month_of_2025_09_15:
  "get_date_range mktime
     \<lparr>dt_year = 2025, dt_month = 9, dt_day = 15, dt_hour = h, dt_minute = mi, dt_second = sec\<rparr> True
     = Inr (mktime \<lparr>dt_year = 2025, dt_month = 8, dt_day = 1,
                    dt_hour = 0, dt_minute = 0, dt_second = 0\<rparr>,
            mktime \<lparr>dt_year = 2025, dt_month = 8, dt_day = 31,
                    dt_hour = 23, dt_minute = 59, dt_second = 59\<rparr>)
   \<and> get_month_label
       \<lparr>dt_year = 2025, dt_month = 9, dt_day = 15, dt_hour = h, dt_minute = mi, dt_second = sec\<rparr> True
     = Inr ''August 2025''
   \<and> minus_one_second (first_of_month 2025 9)
     = Inr \<lparr>dt_year = 2025, dt_month = 8, dt_day = 31,
            dt_hour = 23, dt_minute = 59, dt_second = 59\<rparr>"
  by (simp add: get_date_range_def get_month_label_def first_of_month_def minus_one_second_def
      days_in_month_def strftime_B_Y_def month_name_def str_nat_2025)

section \<open>The sign of the bill\<close>

lemma combined_vals_members:
  "combined_vals rows = Inr vals \<Longrightarrow> v \<in> set vals \<Longrightarrow>
   \<exists>r\<in>set rows. \<exists>a b. row_at r 0 = Inr (Some a) \<and> row_at r 1 = Inr (Some b) \<and> v = py_max2 a b"
proof (induction rows arbitrary: vals)
  case Nil
  then show ?case by simp
next
  case (Cons r rows)
  then show ?case
    by (fastforce split: sum.splits option.splits)
qed

lemma compute_95th_nonneg:
  assumes "compute_95th fetch rrd s e = Inr v"
    and "\<And>fr. fetch rrd s e = Inr fr \<Longrightarrow> no_negative_sample fr"
  shows "0 \<le> v"
proof -
  from assms(1) obtain fr vals where f: "fetch rrd s e = Inr fr"
    and cv: "combined_vals (fr_data fr) = Inr vals"
    and v: "v = (if vals = [] then 0 else np_percentile (map to_mbps vals) 95)"
    by (auto simp: compute_95th_def split: sum.splits if_splits)
  have nn: "no_negative_sample fr" using assms(2) f by simp
  have "0 \<le> x" if "x \<in> set vals" for x
  proof -
    from combined_vals_members[OF cv that] obtain r a b where
      r: "r \<in> set (fr_data fr)" "row_at r 0 = Inr (Some a)" "row_at r 1 = Inr (Some b)"
      and x: "x = py_max2 a b" by blast
    from nn r have "0 \<le> a \<or> 0 \<le> b"
      by (auto simp: no_negative_sample_def list_all_iff)
    then show ?thesis by (auto simp: x py_max2_def)
  qed
  then have "\<forall>x\<in>set (map to_mbps vals). 0 \<le> x" by (simp add: to_mbps_def)
  then have "vals \<noteq> [] \<Longrightarrow> 0 \<le> np_percentile (map to_mbps vals) 95"
    by (intro np_percentile_lower) simp_all
  then show ?thesis by (simp add: v)
qed

text \<open>
  C7, as stated, fails: nothing clamps or rejects a negative rate, so a customer whose
  only sample has the rates -1000000 and -2000000 is billed -8 Mbps.
\<close>

theorem negative_bill_counterexample:
  "fst (bill_customers negative_fetch 0 60 [(''Acme'', [''port-1.rrd''])]) = [(''Acme'', - 8)]"
  by (simp add: compute_95th_def negative_fetch_def row_at_def py_max2_def to_mbps_def
      np_percentile_def np_lerp_def val_95_of_def)

text \<open>
  C7, amended: the figure of every customer is at least 0 provided that, in the RRD
  files that can be read, no sample with both directions present has both rates
  negative; this covers the computed percentile, the interface without a valid sample
  and the customer whose interfaces all failed.
\<close>

theorem bill_not_negative:
  assumes "\<forall>rrd fr. fetch rrd s e = Inr fr \<longrightarrow> no_negative_sample fr"
  shows "\<forall>(cust_name, val_95) \<in> set (fst (bill_customers fetch s e customers)). 0 \<le> val_95"
proof -
  have "0 \<le> val_95_of (fst (read_rrds fetch s e rrds))" for rrds
  proof -
    let ?vals = "fst (read_rrds fetch s e rrds)"
    have all: "\<forall>v\<in>set ?vals. 0 \<le> v"
      unfolding read_rrds_set using assms by (auto intro: compute_95th_nonneg)
    show ?thesis
    proof (cases "?vals = []")
      case True
      then show ?thesis by (simp add: val_95_of_def)
    next
      case False
      then have "Max (set ?vals) \<in> set ?vals" by (intro Max_in) simp_all
      then show ?thesis using all False by (simp add: val_95_of_Max)
    qed
  qed
  then show ?thesis unfolding bill_customers_results by auto
qed

theorem bill_not_negative_witness:
  "0 \<le> snd (hd (fst (bill_customers example_fetch 0 60 example_customers)))
   \<and> 0 \<le> snd (last (fst (bill_customers example_fetch 0 60 example_customers)))"
proof -
  let ?results = "fst (bill_customers example_fetch 0 60 example_customers)"
  have "\<forall>rrd fr. example_fetch rrd 0 60 = Inr fr \<longrightarrow> no_negative_sample fr"
    by (auto simp: example_fetch_def no_negative_sample_def row_at_def split: if_splits)
  then have all: "\<forall>(cust_name, val_95) \<in> set ?results. 0 \<le> val_95"
    by (rule bill_not_negative)
  have first: "hd ?results \<in> set ?results" and final: "last ?results \<in> set ?results"
    by (simp_all add: example_bill)
  have "case hd ?results of (cust_name, val_95) \<Rightarrow> 0 \<le> val_95"
    using all first by (rule bspec)
  moreover have "case last ?results of (cust_name, val_95) \<Rightarrow> 0 \<le> val_95"
    using all final by (rule bspec)
  ultimately show ?thesis by (simp only: case_prod_beta)
qed

section \<open>The exit status\<close>

lemma minus_one_second_first_of_month:
  "1 < y \<Longrightarrow> \<exists>d. minus_one_second (first_of_month y m) = Inr d"
  by (simp add: minus_one_second_def first_of_month_def)

lemma get_date_range_ok:
  "1 < dt_year now \<Longrightarrow> \<exists>start_ts end_ts. get_date_range mktime now prev = Inr (start_ts, end_ts)"
  using minus_one_second_first_of_month[of "dt_year now" "dt_month now"]
  by (auto simp: get_date_range_def Let_def)

lemma get_month_label_ok:
  "1 < dt_year now \<Longrightarrow> \<exists>month_label. get_month_label now prev = Inr month_label"
  using minus_one_second_first_of_month[of "dt_year now" "dt_month now"]
  by (auto simp: get_month_label_def Let_def)

lemma load_customer_interfaces_ok:
  "\<exists>customers warnings. load_customer_interfaces (Inr rows) file_exists rrd_base = Inr (customers, warnings)"
  by (cases "load_rows file_exists rrd_base rows []") (simp add: load_customer_interfaces_def)

text \<open>
  C4, as stated, fails: with no customer interface in the database the run prints its
  message and returns, and the exit status is 0.
\<close>

theorem no_customers_counterexample:
  "out_exit (main empty_env example_args) = 0"
  by (simp add: main_def empty_env_def example_args_def example_now_def get_date_range_def
      get_month_label_def first_of_month_def minus_one_second_def load_customer_interfaces_def)

text \<open>
  C4, amended: when the configuration is read, the database answers and the mail, if
  any, is delivered, the exit status is 0 whatever happens to the single interfaces;
  and when no customer group is found the run prints the warnings of the loader and
  "No customers with RRDs found. Exiting.", sends nothing, and its exit status is 0 too.
\<close>

theorem exit_status_zero:
  assumes "env_config ev (arg_observium_config a) = None"
    and "env_query ev = Inr rows"
    and "env_smtp ev = None"
    and "1 < dt_year (env_now ev)"
  shows "out_exit (main ev a) = 0
       \<and> (\<forall>warnings. load_customer_interfaces (env_query ev) (env_exists ev) (arg_rrd_base a)
                        = Inr ([], warnings) \<longrightarrow>
             out_stdout (main ev a) = warnings @ [''No customers with RRDs found. Exiting.'']
             \<and> out_mail (main ev a) = None)"
proof -
  obtain start_ts end_ts where r:
    "get_date_range (env_mktime ev) (env_now ev) (arg_prev a) = Inr (start_ts, end_ts)"
    using get_date_range_ok[OF assms(4)] by blast
  obtain month_label where l: "get_month_label (env_now ev) (arg_prev a) = Inr month_label"
    using get_month_label_ok[OF assms(4)] by blast
  obtain customers warnings where c:
    "load_customer_interfaces (env_query ev) (env_exists ev) (arg_rrd_base a) = Inr (customers, warnings)"
    unfolding assms(2) using load_customer_interfaces_ok by blast
  show ?thesis
    by (simp add: main_def r l c assms(1,3) Let_def split: prod.splits option.splits)
qed

theorem exit_status_zero_witness:
  "out_exit (main example_env example_args) = 0
   \<and> out_stdout (main empty_env example_args)
     = [''Warning: No interfaces found with ifAlias starting with 'Cust:'' @ [CHR 0x27],
        ''No customers with RRDs found. Exiting.'']"
proof -
  have e1: "env_config example_env (arg_observium_config example_args) = None"
    "env_query example_env = Inr example_rows" "env_smtp example_env = None"
    "1 < dt_year (env_now example_env)"
    by (simp_all add: example_env_def example_now_def)
  have e2: "env_config empty_env (arg_observium_config example_args) = None"
    "env_query empty_env = Inr []" "env_smtp empty_env = None"
    "1 < dt_year (env_now empty_env)"
    by (simp_all add: empty_env_def example_now_def)
  have l: "load_customer_interfaces (env_query empty_env) (env_exists empty_env)
             (arg_rrd_base example_args)
           = Inr ([], [''Warning: No interfaces found with ifAlias starting with 'Cust:'' @ [CHR 0x27]])"
    by (simp add: load_customer_interfaces_def empty_env_def)
  from exit_status_zero[OF e1] exit_status_zero[OF e2] l
  show ?thesis by simp
qed

section \<open>The report\<close>

lemma keys_dict_append:
  "map fst (dict_append k v d) = (if k \<in> set (map fst d) then map fst d else map fst d @ [k])"
  by (induction d) force+
























lemma example_names:
  "cust_name_of ''Cust:Acme'' = ''Acme''"
  "cust_name_of ''Cust: Beta'' = ''Beta''"
  "cust_name_of ''cust:  Acme '' = ''Acme''"
  "cust_name_of ''Cust:Beta'' = ''Beta''"
  "cust_name_of ''Cust:Gamma'' = ''Gamma''"
  by (simp_all add: cust_name_of_def split_colon1_def list_at_def py_strip_def py_isspace_def)

lemma example_files:
  "rrd_file_of ''/rrd'' \<lparr>ifIndex = 1, ifAlias = a1, hostname = ''r1''\<rparr> = ''/rrd/r1/port-1.rrd''"
  "rrd_file_of ''/rrd'' \<lparr>ifIndex = 7, ifAlias = a2, hostname = ''r2''\<rparr> = ''/rrd/r2/port-7.rrd''"
  "rrd_file_of ''/rrd'' \<lparr>ifIndex = 2, ifAlias = a3, hostname = ''r1''\<rparr> = ''/rrd/r1/port-2.rrd''"
  "rrd_file_of ''/rrd'' \<lparr>ifIndex = 8, ifAlias = a4, hostname = ''r2''\<rparr> = ''/rrd/r2/port-8.rrd''"
  "rrd_file_of ''/rrd'' \<lparr>ifIndex = 9, ifAlias = a5, hostname = ''r3''\<rparr> = ''/rrd/r3/port-9.rrd''"
  by (simp_all add: rrd_file_of_def path_join_def str_int_def str_nat.simps digit_char_def)










section \<open>The customer groups\<close>

lemma dict_append_new:
  "k \<notin> fst ` set d \<Longrightarrow> dict_append k v d = d @ [(k, [v])]"
  by (induction d) auto

lemma dict_append_old:
  "distinct (map fst d) \<Longrightarrow> k \<in> fst ` set d \<Longrightarrow>
   dict_append k v d = map (\<lambda>(k', vs). (k', if k' = k then vs @ [v] else vs)) d"
proof (induction d)
  case Nil
  then show ?case by simp
next
  case (Cons entry d)
  obtain k' vs where entry: "entry = (k', vs)" by (cases entry)
  show ?case
  proof (cases "k = k'")
    case True
    with Cons.prems(1) entry have "k \<notin> fst ` set d" by simp
    then have "map (\<lambda>(k', vs). (k', if k' = k then vs @ [v] else vs)) d = d"
      by (intro map_idI) (auto simp: image_iff)
    then show ?thesis using True entry by simp
  next
    case False
    with Cons.prems entry have "distinct (map fst d)" "k \<in> fst ` set d" by auto
    then have "dict_append k v d = map (\<lambda>(k', vs). (k', if k' = k then vs @ [v] else vs)) d"
      by (rule Cons.IH)
    then show ?thesis using False entry by simp
  qed
qed

lemma dict_append_distinct:
  "distinct (map fst d) \<Longrightarrow> distinct (map fst (dict_append k v d))"
  by (simp add: keys_dict_append)

lemma load_rows_groups:
  fixes file_exists :: "string \<Rightarrow> bool" and rrd_base :: string
  defines "files \<equiv> \<lambda>rows name. map (rrd_file_of rrd_base)
             (filter (\<lambda>r. file_exists (rrd_file_of rrd_base r) \<and> cust_name_of (ifAlias r) = name) rows)"
    and "names \<equiv> \<lambda>rows. first_seen (map (\<lambda>r. cust_name_of (ifAlias r))
             (filter (\<lambda>r. file_exists (rrd_file_of rrd_base r)) rows))"
  assumes "distinct (map fst d)"
  shows "fst (load_rows file_exists rrd_base rows d)
           = map (\<lambda>(name, vs). (name, vs @ files rows name)) d
             @ map (\<lambda>name. (name, files rows name))
                 (filter (\<lambda>name. name \<notin> fst ` set d) (names rows))"
  using assms(3)
proof (induction rows arbitrary: d)
  case Nil
  then show ?case by (simp add: files_def names_def)
next
  case (Cons r rows)
  let ?k = "cust_name_of (ifAlias r)"
  let ?f = "rrd_file_of rrd_base r"
  show ?case
  proof (cases "file_exists ?f")
    case False
    then have "files (r # rows) = files rows" "names (r # rows) = names rows"
      by (simp_all add: files_def names_def)
    moreover have "fst (load_rows file_exists rrd_base (r # rows) d)
                   = fst (load_rows file_exists rrd_base rows d)"
      using False by (simp add: Let_def split: prod.splits)
    ultimately show ?thesis using Cons.IH[OF Cons.prems] by simp
  next
    case True
    have files_step: "files (r # rows) name = (if name = ?k then ?f # files rows name else files rows name)"
      for name
      using True by (auto simp: files_def)
    have names_step: "names (r # rows) = ?k # filter (\<lambda>y. y \<noteq> ?k) (names rows)"
      using True by (simp add: names_def)
    have step: "fst (load_rows file_exists rrd_base (r # rows) d)
                = fst (load_rows file_exists rrd_base rows (dict_append ?k ?f d))"
      using True by (simp add: Let_def)
    note IH = Cons.IH[OF dict_append_distinct[OF Cons.prems], of ?k ?f]
    show ?thesis
    proof (cases "?k \<in> fst ` set d")
      case old: True
      have d': "dict_append ?k ?f d = map (\<lambda>(k', vs). (k', if k' = ?k then vs @ [?f] else vs)) d"
        using Cons.prems old by (rule dict_append_old)
      have keys: "fst ` set (dict_append ?k ?f d) = fst ` set d"
        using keys_dict_append[of ?k ?f d] old
        by (metis (no_types, lifting) image_set list.set_map)
      have left: "map (\<lambda>(name, vs). (name, vs @ files rows name)) (dict_append ?k ?f d)
                  = map (\<lambda>(name, vs). (name, vs @ files (r # rows) name)) d"
        unfolding d' by (simp add: files_step case_prod_beta)
      have "filter (\<lambda>name. name \<notin> fst ` set d) (names (r # rows))
            = filter (\<lambda>name. name \<notin> fst ` set d) (names rows)"
        unfolding names_step using old by (auto intro: filter_cong)
      moreover have "map (\<lambda>name. (name, files rows name))
                       (filter (\<lambda>name. name \<notin> fst ` set d) (names rows))
                     = map (\<lambda>name. (name, files (r # rows) name))
                       (filter (\<lambda>name. name \<notin> fst ` set d) (names rows))"
        using old by (intro map_cong) (auto simp: files_step)
      ultimately show ?thesis unfolding step IH keys left by simp
    next
      case new: False
      let ?g = "\<lambda>(name, vs). (name, vs @ files rows name)"
      let ?g' = "\<lambda>(name, vs). (name, vs @ files (r # rows) name)"
      let ?h = "\<lambda>name. (name, files rows name)"
      let ?h' = "\<lambda>name. (name, files (r # rows) name)"
      let ?others = "filter (\<lambda>x. x \<noteq> ?k \<and> x \<notin> fst ` set d) (names rows)"
      have d': "dict_append ?k ?f d = d @ [(?k, [?f])]"
        using new by (rule dict_append_new)
      have absent: "(?k, vs) \<notin> set d" for vs using new by force
      have left: "map ?g d = map ?g' d"
        using absent by (intro map_cong) (auto simp: files_step)
      have right: "map ?h ?others = map ?h' ?others"
        by (intro map_cong) (auto simp: files_step)
      have fk: "files (r # rows) ?k = ?f # files rows ?k" by (simp add: files_step)
      have lhs: "fst (load_rows file_exists rrd_base rows (dict_append ?k ?f d))
                 = map ?g d @ (?k, ?f # files rows ?k) # map ?h ?others"
        using IH by (simp add: d')
      have rhs: "map ?g' d @ map ?h' (filter (\<lambda>name. name \<notin> fst ` set d) (names (r # rows)))
                 = map ?g' d @ (?k, ?f # files rows ?k) # map ?h' ?others"
        unfolding names_step using new by (simp add: fk)
      show ?thesis by (simp only: step lhs rhs left right)
    qed
  qed
qed

section \<open>The customer's name\<close>

lemma split_colon1_at_first_colon:
  assumes "CHR '':'' \<notin> set p"
  shows "split_colon1 (p @ CHR '':'' # rest) = [p, rest]"
proof -
  from assms have "takeWhile (\<lambda>c. c \<noteq> CHR '':'') (p @ CHR '':'' # rest) = p"
    and "dropWhile (\<lambda>c. c \<noteq> CHR '':'') (p @ CHR '':'' # rest) = CHR '':'' # rest"
    by (induction p) auto
  then show ?thesis by (simp add: split_colon1_def)
qed

lemma cust_name_of_at_first_colon:
  "CHR '':'' \<notin> set p \<Longrightarrow> cust_name_of (p @ CHR '':'' # rest) = py_strip rest"
  by (simp add: cust_name_of_def split_colon1_at_first_colon list_at_def)

lemma py_strip_split:
  "dropWhile py_isspace s
     = py_strip s @ rev (takeWhile py_isspace (rev (dropWhile py_isspace s)))"
proof -
  let ?m = "dropWhile py_isspace s"
  have "rev (takeWhile py_isspace (rev ?m) @ dropWhile py_isspace (rev ?m)) = ?m"
    by (simp only: takeWhile_dropWhile_id rev_rev_ident)
  then have "rev (dropWhile py_isspace (rev ?m)) @ rev (takeWhile py_isspace (rev ?m)) = ?m"
    by (simp only: rev_append)
  then show ?thesis by (simp only: py_strip_def)
qed

lemma py_strip_decompose:
  "\<exists>lead trail. s = lead @ py_strip s @ trail
     \<and> (\<forall>c\<in>set lead. py_isspace c) \<and> (\<forall>c\<in>set trail. py_isspace c)"
proof (intro exI conjI)
  let ?lead = "takeWhile py_isspace s"
  let ?trail = "rev (takeWhile py_isspace (rev (dropWhile py_isspace s)))"
  have "s = ?lead @ dropWhile py_isspace s" by (simp only: takeWhile_dropWhile_id)
  also have "dropWhile py_isspace s = py_strip s @ ?trail" by (rule py_strip_split)
  finally show "s = ?lead @ py_strip s @ ?trail" .
  show "\<forall>c\<in>set ?lead. py_isspace c" by (auto dest: set_takeWhileD)
  show "\<forall>c\<in>set ?trail. py_isspace c" by (auto dest: set_takeWhileD)
qed

lemma py_strip_ends:
  assumes "py_strip s \<noteq> []"
  shows "\<not> py_isspace (hd (py_strip s))" and "\<not> py_isspace (last (py_strip s))"
proof -
  let ?m = "dropWhile py_isspace s"
  let ?d = "dropWhile py_isspace (rev ?m)"
  have strip: "py_strip s = rev ?d" by (simp only: py_strip_def)
  have d_ne: "?d \<noteq> []" using assms unfolding strip by simp
  then have "\<not> py_isspace (hd ?d)" by (rule hd_dropWhile)
  moreover have "last (rev ?d) = hd ?d" using d_ne by (simp add: last_rev)
  ultimately show "\<not> py_isspace (last (py_strip s))" unfolding strip by simp
  have m_ne: "?m \<noteq> []"
  proof
    assume "?m = []"
    then have "?d = []" by (simp only: rev.simps dropWhile.simps)
    with d_ne show False by contradiction
  qed
  have "hd ?m = hd (py_strip s @ rev (takeWhile py_isspace (rev ?m)))"
    by (rule arg_cong[OF py_strip_split])
  also have "\<dots> = hd (py_strip s)" using assms by (rule hd_append2)
  finally have "hd (py_strip s) = hd ?m" by (rule sym)
  moreover have "\<not> py_isspace (hd ?m)" using m_ne by (rule hd_dropWhile)
  ultimately show "\<not> py_isspace (hd (py_strip s))" by simp
qed

lemma alias_with_prefix:
  assumes "take 5 alias = ''Cust:'' \<or> take 5 alias = ''cust:''"
  shows "cust_name_of alias = py_strip (drop 5 alias)"
proof -
  have split: "alias = take 5 alias @ drop 5 alias" by simp
  from assms show ?thesis
  proof
    assume "take 5 alias = ''Cust:''"
    with split have a: "alias = ''Cust'' @ CHR '':'' # drop 5 alias" by simp
    have "cust_name_of (''Cust'' @ CHR '':'' # drop 5 alias) = py_strip (drop 5 alias)"
      by (rule cust_name_of_at_first_colon) simp
    with a show ?thesis by simp
  next
    assume "take 5 alias = ''cust:''"
    with split have a: "alias = ''cust'' @ CHR '':'' # drop 5 alias" by simp
    have "cust_name_of (''cust'' @ CHR '':'' # drop 5 alias) = py_strip (drop 5 alias)"
      by (rule cust_name_of_at_first_colon) simp
    with a show ?thesis by simp
  qed
qed

text \<open>
  C10: for an alias that starts with "Cust:" or "cust:" the customer name is the text
  after that first colon without its leading and trailing whitespace: the text is some
  whitespace, the name, some whitespace, and the name neither starts nor ends with a
  whitespace character. The rows are grouped under these names: the customer groups
  are the names in the order they are first seen among the rows whose RRD file exists,
  each with the RRD files of all those rows that give this name, so rows such as
  "Cust:Acme" and "cust:  Acme " share one group.
\<close>

theorem customer_name_from_alias:
  assumes "take 5 alias = ''Cust:'' \<or> take 5 alias = ''cust:''"
  shows "cust_name_of alias = py_strip (drop 5 alias)
       \<and> (\<exists>lead trail. drop 5 alias = lead @ cust_name_of alias @ trail
             \<and> (\<forall>c\<in>set lead. py_isspace c) \<and> (\<forall>c\<in>set trail. py_isspace c))
       \<and> (cust_name_of alias \<noteq> [] \<longrightarrow>
             \<not> py_isspace (hd (cust_name_of alias)) \<and> \<not> py_isspace (last (cust_name_of alias)))
       \<and> (\<forall>rows.
             fst (load_rows file_exists rrd_base rows [])
               = map (\<lambda>name.
                        (name,
                         map (rrd_file_of rrd_base)
                           (filter (\<lambda>r. file_exists (rrd_file_of rrd_base r)
                                        \<and> cust_name_of (ifAlias r) = name) rows)))
                     (first_seen (map (\<lambda>r. cust_name_of (ifAlias r))
                        (filter (\<lambda>r. file_exists (rrd_file_of rrd_base r)) rows))))"
proof (intro conjI allI impI)
  note name = alias_with_prefix[OF assms]
  show "cust_name_of alias = py_strip (drop 5 alias)" by (rule name)
  show "\<exists>lead trail. drop 5 alias = lead @ cust_name_of alias @ trail
             \<and> (\<forall>c\<in>set lead. py_isspace c) \<and> (\<forall>c\<in>set trail. py_isspace c)"
    unfolding name by (rule py_strip_decompose)
  show "\<not> py_isspace (hd (cust_name_of alias))" if "cust_name_of alias \<noteq> []"
    using that unfolding name by (rule py_strip_ends(1))
  show "\<not> py_isspace (last (cust_name_of alias))" if "cust_name_of alias \<noteq> []"
    using that unfolding name by (rule py_strip_ends(2))
  show "fst (load_rows file_exists rrd_base rows [])
               = map (\<lambda>name.
                        (name,
                         map (rrd_file_of rrd_base)
                           (filter (\<lambda>r. file_exists (rrd_file_of rrd_base r)
                                        \<and> cust_name_of (ifAlias r) = name) rows)))
                     (first_seen (map (\<lambda>r. cust_name_of (ifAlias r))
                        (filter (\<lambda>r. file_exists (rrd_file_of rrd_base r)) rows)))" for rows
    using load_rows_groups[of "[]" file_exists rrd_base rows] by simp
qed

theorem customer_name_from_alias_witness:
  "cust_name_of ''cust:  Acme '' = ''Acme''
   \<and> fst (load_rows grouping_exists ''/rrd'' grouping_rows [])
     = [(''Beta'', [''/rrd/r2/port-7.rrd'', ''/rrd/r2/port-8.rrd'']),
        (''Acme'', [''/rrd/r1/port-2.rrd'', ''/rrd/r1/port-1.rrd''])]"
proof -
  have h: "take 5 ''cust:  Acme '' = ''Cust:'' \<or> take 5 ''cust:  Acme '' = ''cust:''" by simp
  note t = customer_name_from_alias[of "''cust:  Acme ''" grouping_exists "''/rrd''", OF h]
  have strip: "py_strip ''  Acme '' = ''Acme''" by (simp add: py_strip_def py_isspace_def)
  have n: "cust_name_of ''cust:  Acme '' = ''Acme''"
    using t[THEN conjunct1] strip by simp
  have "fst (load_rows grouping_exists ''/rrd'' grouping_rows [])
          = map (\<lambda>name.
                   (name,
                    map (rrd_file_of ''/rrd'')
                      (filter (\<lambda>r. grouping_exists (rrd_file_of ''/rrd'' r)
                                   \<and> cust_name_of (ifAlias r) = name) grouping_rows)))
                (first_seen (map (\<lambda>r. cust_name_of (ifAlias r))
                   (filter (\<lambda>r. grouping_exists (rrd_file_of ''/rrd'' r)) grouping_rows)))"
    using t[THEN conjunct2, THEN conjunct2, THEN conjunct2, THEN spec] .
  also have "\<dots> = [(''Beta'', [''/rrd/r2/port-7.rrd'', ''/rrd/r2/port-8.rrd'']),
                     (''Acme'', [''/rrd/r1/port-2.rrd'', ''/rrd/r1/port-1.rrd''])]"
    by (simp add: grouping_rows_def grouping_exists_def example_names example_files)
  finally show ?thesis using n by simp
qed

end
